theory Spec2Isabelle
  imports Complex_Main "HOL-Library.Word"
begin

unbundle bit_operations_syntax

section \<open>The TM1637 driver: constants, device state and the bus\<close>

text \<open>
  The module constants of \<^verbatim>\<open>tm1637.py\<close>. Python integers are unbounded, so they are
  \<open>int\<close>; the segment table \<^verbatim>\<open>_SEGMENTS\<close> is a \<^verbatim>\<open>bytearray\<close>, a sequence of bytes.
\<close>

definition TM1637_MAX_DIGITS :: int where "TM1637_MAX_DIGITS = 6"
definition TM1637_CMD1 :: int where "TM1637_CMD1 = 64"
definition TM1637_CMD2 :: int where "TM1637_CMD2 = 192"
definition TM1637_CMD3 :: int where "TM1637_CMD3 = 128"
definition TM1637_DSP_ON :: int where "TM1637_DSP_ON = 8"
definition TM1637_DELAY :: int where "TM1637_DELAY = 10"
definition TM1637_MSB :: int where "TM1637_MSB = 128"

type_synonym bytearray = "8 word list"

definition SEGMENTS :: bytearray where
  "SEGMENTS =
    [0x3F, 0x06, 0x5B, 0x4F, 0x66, 0x6D, 0x7D, 0x07, 0x7F, 0x6F,
     0x77, 0x7C, 0x39, 0x5E, 0x79, 0x71, 0x3D, 0x76, 0x06, 0x1E,
     0x76, 0x38, 0x55, 0x54, 0x3F, 0x73, 0x67, 0x50, 0x6D, 0x78,
     0x3E, 0x1C, 0x2A, 0x76, 0x6E, 0x5B, 0x00, 0x40, 0x63]"

text \<open>
  A Python string is a sequence of Unicode code points, and a character is a string of
  length one: \<^verbatim>\<open>ord\<close> of it is its code point, any number up to \<open>0x10FFFF\<close>. A character
  is modelled by its code point and a string by the list of its code points; \<open>cp\<close> and
  \<open>py\<close> turn an ASCII literal into that form.
\<close>

type_synonym pychar = nat

type_synonym pystr = "pychar list"

abbreviation cp :: "char \<Rightarrow> pychar" where
  "cp c \<equiv> of_char c"

abbreviation py :: "string \<Rightarrow> pystr" where
  "py str \<equiv> map of_char str"

text \<open>Python exceptions raised by the driver or by the builtins it calls, with their messages.\<close>

datatype error = ValueError pystr | TypeError pystr | IndexError pystr

text \<open>
  The two GPIO lines and the delay primitives are collaborators of the driver. Every call
  on them is recorded, in order, as an event. A pin object called with an argument sets
  the level (\<open>Pin_set\<close>); called with none it would read the level (\<open>Pin_get\<close>).
\<close>

datatype pin = CLK | DIO

datatype event =
    Pin_init pin int
  | Pin_set pin int
  | Pin_get pin
  | Sleep_us int
  | Sleep_ms int

text \<open>
  The device handle: the attributes \<^verbatim>\<open>_brightness\<close> and \<^verbatim>\<open>_digits\<close>, the class of the
  object (\<open>dev_decimal\<close> holds for an instance of \<^verbatim>\<open>TM1637Decimal\<close>, whose only override
  is \<^verbatim>\<open>encode_string\<close>), and the events seen so far on the bus.
\<close>

record tm1637 =
  dev_brightness :: int
  dev_digits :: int
  dev_decimal :: bool
  dev_trace :: "event list"

type_synonym 'a result = "(error + 'a) \<times> tm1637"

definition emit :: "event \<Rightarrow> tm1637 \<Rightarrow> tm1637" where
  "emit e s = s\<lparr>dev_trace := dev_trace s @ [e]\<rparr>"

definition clk :: "int \<Rightarrow> tm1637 \<Rightarrow> tm1637" where
  "clk v = emit (Pin_set CLK v)"

definition dio :: "int \<Rightarrow> tm1637 \<Rightarrow> tm1637" where
  "dio v = emit (Pin_set DIO v)"

definition sleep_us :: "int \<Rightarrow> tm1637 \<Rightarrow> tm1637" where
  "sleep_us n = emit (Sleep_us n)"

definition sleep_ms :: "int \<Rightarrow> tm1637 \<Rightarrow> tm1637" where
  "sleep_ms n = emit (Sleep_ms n)"

text \<open>A block of statements that cannot raise: each one maps the state to the next.\<close>

definition run :: "(tm1637 \<Rightarrow> tm1637) list \<Rightarrow> tm1637 \<Rightarrow> tm1637" where
  "run stmts s = fold (\<lambda>stmt. stmt) stmts s"

subsection \<open>Bus protocol layer\<close>

definition start :: "tm1637 \<Rightarrow> tm1637" where
  "start = run [dio 0, sleep_us TM1637_DELAY, clk 0, sleep_us TM1637_DELAY]"

definition stop :: "tm1637 \<Rightarrow> tm1637" where
  "stop = run [dio 0, sleep_us TM1637_DELAY, clk 1, sleep_us TM1637_DELAY, dio 1]"

text \<open>\<^verbatim>\<open>(b >> i) & 1\<close> on a Python integer.\<close>

definition write_byte :: "int \<Rightarrow> tm1637 \<Rightarrow> tm1637" where
  "write_byte b =
     run [fold (\<lambda>i. run [dio (drop_bit i b AND 1), sleep_us TM1637_DELAY,
                          clk 1, sleep_us TM1637_DELAY,
                          clk 0, sleep_us TM1637_DELAY]) [0..<8],
          clk 0, sleep_us TM1637_DELAY,
          clk 1, sleep_us TM1637_DELAY,
          clk 0, sleep_us TM1637_DELAY]"

subsection \<open>Command and session management\<close>

definition write_data_cmd :: "tm1637 \<Rightarrow> tm1637" where
  "write_data_cmd = run [start, write_byte TM1637_CMD1, stop]"

definition write_dsp_ctrl :: "tm1637 \<Rightarrow> tm1637" where
  "write_dsp_ctrl s =
     run [start, write_byte (TM1637_CMD3 OR TM1637_DSP_ON OR dev_brightness s), stop] s"

text \<open>
  The constructor. The object is returned only when both range checks pass; the bus is
  then initialised.
\<close>

definition init :: "int \<Rightarrow> int \<Rightarrow> bool \<Rightarrow> error + tm1637" where
  "init brightness digits decimal =
     (if \<not> (0 \<le> brightness \<and> brightness \<le> 7) then Inl (ValueError (py ''Brightness out of range''))
      else if \<not> (1 \<le> digits \<and> digits \<le> TM1637_MAX_DIGITS)
        then Inl (ValueError (py ''Number of digits should be between 1 and 6''))
      else Inr (run [emit (Pin_init CLK 0), emit (Pin_init DIO 0), sleep_us TM1637_DELAY,
                     write_data_cmd, write_dsp_ctrl]
                  \<lparr>dev_brightness = brightness, dev_digits = digits,
                   dev_decimal = decimal, dev_trace = []\<rparr>))"

text \<open>\<^verbatim>\<open>brightness(val=None)\<close>: the getter returns the stored level, the setter returns \<^verbatim>\<open>None\<close>.\<close>

definition brightness :: "tm1637 \<Rightarrow> int option \<Rightarrow> int option result" where
  "brightness s val =
     (case val of
        None \<Rightarrow> (Inr (Some (dev_brightness s)), s)
      | Some v \<Rightarrow>
          if \<not> (0 \<le> v \<and> v \<le> 7) then (Inl (ValueError (py ''Brightness out of range'')), s)
          else (Inr None, run [write_data_cmd, write_dsp_ctrl] (s\<lparr>dev_brightness := v\<rparr>)))"

text \<open>
  \<^verbatim>\<open>write(segments, pos=0)\<close>, named \<open>write_segments\<close> here (\<open>write\<close> is reserved in
  Isabelle); \<open>segments\<close> is the sequence of integers the loop iterates over.
\<close>

definition write_segments :: "tm1637 \<Rightarrow> int list \<Rightarrow> int \<Rightarrow> unit result" where
  "write_segments s segments pos =
     (if \<not> (0 \<le> pos \<and> pos < dev_digits s) then (Inl (ValueError (py ''Position out of range'')), s)
      else (Inr (),
            run [write_data_cmd, start, write_byte (TM1637_CMD2 OR pos),
                 fold (\<lambda>seg. write_byte seg) segments,
                 stop, write_dsp_ctrl] s))"

subsection \<open>Python builtins used by the driver\<close>

text \<open>
  Indexing a sequence of length \<open>n\<close>: a negative index counts from the end, and an index
  outside the sequence raises \<^verbatim>\<open>IndexError\<close>.
\<close>

definition py_index :: "nat \<Rightarrow> int \<Rightarrow> error + nat" where
  "py_index n i =
     (let j = (if i < 0 then int n + i else i)
      in if 0 \<le> j \<and> j < int n then Inr (nat j) else Inl (IndexError (py ''index out of range'')))"

text \<open>Reading an element of a bytearray gives an integer between 0 and 255.\<close>

definition bytearray_get :: "bytearray \<Rightarrow> int \<Rightarrow> error + int" where
  "bytearray_get a i =
     (case py_index (length a) i of Inl e \<Rightarrow> Inl e | Inr k \<Rightarrow> Inr (uint (a ! k)))"

text \<open>Storing an integer into a bytearray raises \<^verbatim>\<open>ValueError\<close> unless it is a byte.\<close>

definition bytearray_set :: "bytearray \<Rightarrow> int \<Rightarrow> int \<Rightarrow> error + bytearray" where
  "bytearray_set a i v =
     (case py_index (length a) i of
        Inl e \<Rightarrow> Inl e
      | Inr k \<Rightarrow>
          if 0 \<le> v \<and> v < 256 then Inr (a[k := word_of_int v])
          else Inl (ValueError (py ''byte must be in range(0, 256)'')))"

text \<open>\<^verbatim>\<open>a[i] |= m\<close>: read, or, store.\<close>

definition bytearray_ior :: "bytearray \<Rightarrow> int \<Rightarrow> int \<Rightarrow> error + bytearray" where
  "bytearray_ior a i m =
     (case bytearray_get a i of Inl e \<Rightarrow> Inl e | Inr old \<Rightarrow> bytearray_set a i (old OR m))"

text \<open>A slice \<^verbatim>\<open>xs[lo:hi]\<close>: both bounds are clamped to the sequence, never an error.\<close>

definition slice_bound :: "nat \<Rightarrow> int \<Rightarrow> nat" where
  "slice_bound n i = (if i < 0 then nat (max 0 (int n + i)) else min n (nat i))"

definition py_slice :: "'a list \<Rightarrow> int \<Rightarrow> int \<Rightarrow> 'a list" where
  "py_slice xs lo hi =
     (let a = slice_bound (length xs) lo; b = slice_bound (length xs) hi
      in take (b - a) (drop a xs))"

text \<open>
  \<^verbatim>\<open>list + x\<close> is defined only when \<open>x\<close> is a list too; with a bytearray on the right
  it raises \<^verbatim>\<open>TypeError\<close> (the bytearray type has no reflected addition).
\<close>

datatype pyseq = PyList "int list" | PyBytearray bytearray

definition py_len :: "pyseq \<Rightarrow> nat" where
  "py_len q = (case q of PyList xs \<Rightarrow> length xs | PyBytearray a \<Rightarrow> length a)"

definition py_list_add :: "int list \<Rightarrow> pyseq \<Rightarrow> error + int list" where
  "py_list_add xs q =
     (case q of
        PyList ys \<Rightarrow> Inr (xs @ ys)
      | PyBytearray a \<Rightarrow> Inl (TypeError (py ''can only concatenate list (not '' @ [cp CHR 0x22] @
                                      py ''bytearray'' @ [cp CHR 0x22] @ py '') to list'')))"

text \<open>Decimal and lowercase hexadecimal digits of a natural number, most significant first.\<close>

definition digit_char :: "nat \<Rightarrow> pychar" where
  "digit_char d = cp (''0123456789abcdef'' ! d)"

fun str_nat :: "nat \<Rightarrow> pystr" where
  "str_nat n = (if n < 10 then [digit_char n] else str_nat (n div 10) @ [digit_char (n mod 10)])"

fun hex_nat :: "nat \<Rightarrow> pystr" where
  "hex_nat n = (if n < 16 then [digit_char n] else hex_nat (n div 16) @ [digit_char (n mod 16)])"

declare str_nat.simps [simp del] hex_nat.simps [simp del]

definition str_int :: "int \<Rightarrow> pystr" where
  "str_int i = (if i < 0 then cp CHR ''-'' # str_nat (nat (- i)) else str_nat (nat i))"

definition rjust :: "pychar \<Rightarrow> nat \<Rightarrow> pystr \<Rightarrow> pystr" where
  "rjust fill w str = replicate (w - length str) fill @ str"

text \<open>
  \<^verbatim>\<open>'{0:F>Wd}'.format(i)\<close>: the decimal text of \<open>i\<close>, sign included, padded on the left
  with the fill character \<open>F\<close> to at least \<open>W\<close> columns.
\<close>

definition format_d :: "pychar \<Rightarrow> nat \<Rightarrow> int \<Rightarrow> pystr" where
  "format_d fill w i = rjust fill w (str_int i)"

text \<open>
  \<^verbatim>\<open>'{:0Wx}'.format(v)\<close>: lowercase hexadecimal, zero-padded after the sign to at least
  \<open>W\<close> columns.
\<close>

definition format_0x :: "nat \<Rightarrow> int \<Rightarrow> pystr" where
  "format_0x w v =
     (if v < 0 then cp CHR ''-'' # rjust (cp CHR ''0'') (w - 1) (hex_nat (nat (- v)))
      else rjust (cp CHR ''0'') w (hex_nat (nat v)))"


subsection \<open>Character and string encoding\<close>

definition encode_digit :: "int \<Rightarrow> error + int" where
  "encode_digit digit = bytearray_get SEGMENTS (digit AND 0x0f)"

text \<open>\<^verbatim>\<open>ord(char)\<close>: the code point of the character, as a Python integer.\<close>

definition ord :: "pychar \<Rightarrow> int" where
  "ord c = int c"

text \<open>\<^verbatim>\<open>encode_char(char)\<close>; the ordinal, \<^verbatim>\<open>o\<close> in the source, is \<open>oc\<close> here.\<close>

definition encode_char :: "pychar \<Rightarrow> error + int" where
  "encode_char c =
     (let oc = ord c in
      if oc = 32 then bytearray_get SEGMENTS 36
      else if oc = 42 then bytearray_get SEGMENTS 38
      else if oc = 45 then bytearray_get SEGMENTS 37
      else if oc \<ge> 65 \<and> oc \<le> 90 then bytearray_get SEGMENTS (oc - 55)
      else if oc \<ge> 97 \<and> oc \<le> 122 then bytearray_get SEGMENTS (oc - 87)
      else if oc \<ge> 48 \<and> oc \<le> 57 then bytearray_get SEGMENTS (oc - 48)
      else Inl (ValueError (py ''Character out of range: '' @ str_int oc @ py '' '' @
                            [cp CHR 0x27, c, cp CHR 0x27])))"

text \<open>
  \<^verbatim>\<open>TM1637.encode_string\<close>: a zeroed bytearray as long as the string, filled by index.
\<close>

fun encode_loop :: "bytearray \<Rightarrow> int \<Rightarrow> pystr \<Rightarrow> error + bytearray" where
  "encode_loop segments i [] = Inr segments"
| "encode_loop segments i (c # cs) =
     (case encode_char c of
        Inl e \<Rightarrow> Inl e
      | Inr v \<Rightarrow>
          (case bytearray_set segments i v of
             Inl e \<Rightarrow> Inl e
           | Inr segments' \<Rightarrow> encode_loop segments' (i + 1) cs))"

definition TM1637_encode_string :: "pystr \<Rightarrow> error + bytearray" where
  "TM1637_encode_string string = encode_loop (replicate (length string) 0) 0 string"

text \<open>
  \<^verbatim>\<open>TM1637Decimal.encode_string\<close>: the bytearray is as long as the string without its
  dots; \<open>j\<close> is the next free index.
\<close>

fun decimal_loop :: "bytearray \<Rightarrow> int \<Rightarrow> pystr \<Rightarrow> error + bytearray" where
  "decimal_loop segments j [] = Inr segments"
| "decimal_loop segments j (c # cs) =
     (if c = cp CHR ''.'' \<and> j > 0 then
        (case bytearray_ior segments (j - 1) TM1637_MSB of
           Inl e \<Rightarrow> Inl e
         | Inr segments' \<Rightarrow> decimal_loop segments' j cs)
      else
        (case encode_char c of
           Inl e \<Rightarrow> Inl e
         | Inr v \<Rightarrow>
             (case bytearray_set segments j v of
                Inl e \<Rightarrow> Inl e
              | Inr segments' \<Rightarrow> decimal_loop segments' (j + 1) cs)))"

definition TM1637Decimal_encode_string :: "pystr \<Rightarrow> error + bytearray" where
  "TM1637Decimal_encode_string string =
     decimal_loop (replicate (length (filter (\<lambda>c. c \<noteq> cp CHR ''.'') string)) 0) 0 string"

text \<open>\<^verbatim>\<open>self.encode_string\<close>: the method of the object's class.\<close>

definition encode_string :: "tm1637 \<Rightarrow> pystr \<Rightarrow> error + bytearray" where
  "encode_string s string =
     (if dev_decimal s then TM1637Decimal_encode_string string else TM1637_encode_string string)"

subsection \<open>Rendering operations\<close>

text \<open>
  A bytearray handed to \<open>write_segments\<close> is iterated as integers (\<open>map uint\<close>).
  \<^verbatim>\<open>1 << n\<close> raises \<^verbatim>\<open>ValueError\<close> for a negative \<open>n\<close>.
\<close>

definition hex :: "tm1637 \<Rightarrow> int \<Rightarrow> unit result" where
  "hex s val =
     (if 8 * dev_digits s < 0 then (Inl (ValueError (py ''negative shift count'')), s)
      else
        let mask = push_bit (nat (8 * dev_digits s)) 1 - 1;
            string = format_0x (nat (dev_digits s)) (val AND mask)
        in case encode_string s string of
             Inl e \<Rightarrow> (Inl e, s)
           | Inr segments \<Rightarrow> write_segments s (map uint segments) 0)"

definition hour_minute :: "tm1637 \<Rightarrow> int \<Rightarrow> int \<Rightarrow> bool \<Rightarrow> unit result" where
  "hour_minute s hour minute colon =
     (let num1 = max (- 9) (min hour 99);
          num2 = max (- 9) (min minute 99)
      in case encode_string s (format_d (cp CHR ''0'') 2 num1 @ format_d (cp CHR ''0'') 2 num2) of
           Inl e \<Rightarrow> (Inl e, s)
         | Inr segments \<Rightarrow>
             if colon then
               (case bytearray_ior segments 1 0x80 of
                  Inl e \<Rightarrow> (Inl e, s)
                | Inr segments' \<Rightarrow> write_segments s (map uint segments') 0)
             else write_segments s (map uint segments) 0)"

definition numbers :: "tm1637 \<Rightarrow> int \<Rightarrow> int \<Rightarrow> bool \<Rightarrow> unit result" where
  "numbers s num1 num2 colon = hour_minute s num1 num2 colon"



text \<open>
  \<^verbatim>\<open>scroll(string, delay)\<close>. The argument is a list of segments or a string; a string is
  encoded first, which gives a bytearray.
\<close>

datatype scroll_arg = Arg_list "int list" | Arg_str pystr

fun scroll_loop :: "tm1637 \<Rightarrow> int list \<Rightarrow> int \<Rightarrow> int list \<Rightarrow> unit result" where
  "scroll_loop s data delay [] = (Inr (), s)"
| "scroll_loop s data delay (i # rest) =
     (case write_segments s (py_slice data (0 + i) (dev_digits s + i)) 0 of
        (Inl e, s') \<Rightarrow> (Inl e, s')
      | (Inr u, s') \<Rightarrow> scroll_loop (sleep_ms delay s') data delay rest)"

definition scroll :: "tm1637 \<Rightarrow> scroll_arg \<Rightarrow> int \<Rightarrow> unit result" where
  "scroll s string delay =
     (case (case string of
              Arg_list xs \<Rightarrow> Inr (PyList xs)
            | Arg_str str \<Rightarrow>
                (case encode_string s str of Inl e \<Rightarrow> Inl e | Inr a \<Rightarrow> Inr (PyBytearray a))) of
        Inl e \<Rightarrow> (Inl e, s)
      | Inr segments \<Rightarrow>
          (case py_list_add (replicate (nat (dev_digits s)) 0) segments of
             Inl e \<Rightarrow> (Inl e, s)
           | Inr front \<Rightarrow>
               let data = front @ replicate (nat (dev_digits s)) 0
               in scroll_loop s data delay
                    (map int [0..<nat (int (py_len segments) + dev_digits s + 1)])))"

subsection \<open>The bus traffic in the words of the specification\<close>

text \<open>
  The events of one data bit: the data line is set to the bit, then the clock is raised and
  lowered, one timing unit of 10 microseconds after every transition.
\<close>

definition bit_cell :: "int \<Rightarrow> event list" where
  "bit_cell v =
     [Pin_set DIO v, Sleep_us 10, Pin_set CLK 1, Sleep_us 10, Pin_set CLK 0, Sleep_us 10]"

text \<open>The acknowledgment pulse: low, wait, high, wait, low, wait.\<close>

definition ack_pulse :: "event list" where
  "ack_pulse =
     [Pin_set CLK 0, Sleep_us 10, Pin_set CLK 1, Sleep_us 10, Pin_set CLK 0, Sleep_us 10]"

text \<open>One byte on the bus: bit 0 first, bit 7 last, then the acknowledgment pulse.\<close>

definition byte_frame :: "int \<Rightarrow> event list" where
  "byte_frame b =
     bit_cell (of_bool (bit b 0)) @ bit_cell (of_bool (bit b 1)) @
     bit_cell (of_bool (bit b 2)) @ bit_cell (of_bool (bit b 3)) @
     bit_cell (of_bool (bit b 4)) @ bit_cell (of_bool (bit b 5)) @
     bit_cell (of_bool (bit b 6)) @ bit_cell (of_bool (bit b 7)) @ ack_pulse"

definition start_frame :: "event list" where
  "start_frame = [Pin_set DIO 0, Sleep_us 10, Pin_set CLK 0, Sleep_us 10]"

definition stop_frame :: "event list" where
  "stop_frame = [Pin_set DIO 0, Sleep_us 10, Pin_set CLK 1, Sleep_us 10, Pin_set DIO 1]"

definition data_cmd_frame :: "event list" where
  "data_cmd_frame = start_frame @ byte_frame 0x40 @ stop_frame"

definition dsp_ctrl_frame :: "int \<Rightarrow> event list" where
  "dsp_ctrl_frame level = start_frame @ byte_frame (0x80 OR 0x08 OR level) @ stop_frame"

text \<open>
  A display write: the data command, then one frame holding the address command and every
  segment byte in order, then the display-control command.
\<close>

definition write_frame :: "int \<Rightarrow> int list \<Rightarrow> int \<Rightarrow> event list" where
  "write_frame level segments pos =
     data_cmd_frame @ start_frame @ byte_frame (0xC0 OR pos) @
     concat (map byte_frame segments) @ stop_frame @ dsp_ctrl_frame level"

definition emits :: "event list \<Rightarrow> tm1637 \<Rightarrow> tm1637" where
  "emits es s = s\<lparr>dev_trace := dev_trace s @ es\<rparr>"

subsection \<open>The encoders in the words of the specification\<close>

text \<open>
  The plain encoder, one output byte for each character, the first failing character
  deciding the error.
\<close>

fun glyphs :: "pystr \<Rightarrow> error + bytearray" where
  "glyphs [] = Inr []"
| "glyphs (c # cs) =
     (case encode_char c of
        Inl e \<Rightarrow> Inl e
      | Inr v \<Rightarrow> (case glyphs cs of Inl e \<Rightarrow> Inl e | Inr r \<Rightarrow> Inr (word_of_int v # r)))"

text \<open>
  The decimal-point encoder over the bytes emitted so far: a dot after at least one emitted
  byte sets bit 7 of the last one; every other character is encoded and appended.
\<close>

fun dot_glyphs :: "bytearray \<Rightarrow> pystr \<Rightarrow> error + bytearray" where
  "dot_glyphs acc [] = Inr acc"
| "dot_glyphs acc (c # cs) =
     (if c = cp CHR ''.'' \<and> acc \<noteq> [] then dot_glyphs (butlast acc @ [last acc OR 0x80]) cs
      else
        (case encode_char c of
           Inl e \<Rightarrow> Inl e
         | Inr v \<Rightarrow> dot_glyphs (acc @ [word_of_int v]) cs))"

text \<open>The segment byte of a character the encoder accepts.\<close>

definition glyph :: "pychar \<Rightarrow> 8 word" where
  "glyph c = (case encode_char c of Inl e \<Rightarrow> 0 | Inr v \<Rightarrow> word_of_int v)"

text \<open>
  The characters that decimal and hexadecimal formatting can produce: digits, lowercase
  letters, the minus sign and the space.
\<close>

definition number_char :: "pychar \<Rightarrow> bool" where
  "number_char c \<longleftrightarrow>
     (48 \<le> ord c \<and> ord c \<le> 57) \<or> (97 \<le> ord c \<and> ord c \<le> 122) \<or> ord c = 45 \<or> ord c = 32"

text \<open>
  The windows of a scroll over a list of segments: the list padded with \<open>d\<close> blank bytes on
  each side, cut into \<open>d\<close>-wide windows that start at the offsets 0 to \<open>length + d\<close>.
\<close>

definition scroll_windows :: "nat \<Rightarrow> int list \<Rightarrow> int list list" where
  "scroll_windows d segments =
     map (\<lambda>i. take d (drop i (replicate d 0 @ segments @ replicate d 0)))
       [0..<length segments + d + 1]"




section \<open>Verification\<close>

subsection \<open>Bus protocol layer\<close>

lemma emits_Nil: "emits [] s = s"
  by (simp add: emits_def)

lemma emits_emits: "emits es (emits ds s) = emits (ds @ es) s"
  by (simp add: emits_def)

lemma emit_emits: "emit e (emits ds s) = emits (ds @ [e]) s"
  by (simp add: emits_def emit_def)

lemma emits_fields:
  "dev_brightness (emits es s) = dev_brightness s"
  "dev_digits (emits es s) = dev_digits s"
  "dev_decimal (emits es s) = dev_decimal s"
  "dev_trace (emits es s) = dev_trace s @ es"
  by (simp_all add: emits_def)

lemma run_Nil: "run [] s = s"
  by (simp add: run_def)

lemma run_Cons: "run (f # fs) s = run fs (f s)"
  by (simp add: run_def)

lemma pin_ops_emits:
  "clk v (emits ds s) = emits (ds @ [Pin_set CLK v]) s"
  "dio v (emits ds s) = emits (ds @ [Pin_set DIO v]) s"
  "sleep_us n (emits ds s) = emits (ds @ [Sleep_us n]) s"
  "sleep_ms n (emits ds s) = emits (ds @ [Sleep_ms n]) s"
  by (simp_all add: clk_def dio_def sleep_us_def sleep_ms_def emit_emits)

lemma shift_and_one: "drop_bit i (b::int) AND 1 = of_bool (bit b i)"
  by (simp add: and_one_eq bit_iff_odd_drop_bit mod_2_eq_odd)

lemma bit_step_emits:
  "run [dio (drop_bit i b AND 1), sleep_us TM1637_DELAY, clk 1, sleep_us TM1637_DELAY,
        clk 0, sleep_us TM1637_DELAY] (emits ds s) = emits (ds @ bit_cell (of_bool (bit b i))) s"
  by (simp add: run_Cons run_Nil pin_ops_emits shift_and_one TM1637_DELAY_def bit_cell_def)

lemma upt_8: "[0..<8] = [0, 1, 2, 3, 4, 5, 6, 7]"
  by (simp add: upt_rec)

lemma bit_loop_emits:
  "fold (\<lambda>i. run [dio (drop_bit i b AND 1), sleep_us TM1637_DELAY, clk 1, sleep_us TM1637_DELAY,
                     clk 0, sleep_us TM1637_DELAY]) [0..<8] (emits ds s) =
   emits (ds @ bit_cell (of_bool (bit b 0)) @ bit_cell (of_bool (bit b 1)) @
     bit_cell (of_bool (bit b 2)) @ bit_cell (of_bool (bit b 3)) @
     bit_cell (of_bool (bit b 4)) @ bit_cell (of_bool (bit b 5)) @
     bit_cell (of_bool (bit b 6)) @ bit_cell (of_bool (bit b 7))) s"
  unfolding upt_8 by (simp only: fold_simps bit_step_emits o_apply append_assoc)

lemma ack_emits:
  "run [clk 0, sleep_us TM1637_DELAY, clk 1, sleep_us TM1637_DELAY, clk 0, sleep_us TM1637_DELAY]
     (emits ds s) = emits (ds @ ack_pulse) s"
  by (simp add: run_Cons run_Nil pin_ops_emits TM1637_DELAY_def ack_pulse_def)

lemma write_byte_emits: "write_byte b (emits ds s) = emits (ds @ byte_frame b) s"
proof -
  have "write_byte b (emits ds s) =
      run [clk 0, sleep_us TM1637_DELAY, clk 1, sleep_us TM1637_DELAY, clk 0, sleep_us TM1637_DELAY]
        (fold (\<lambda>i. run [dio (drop_bit i b AND 1), sleep_us TM1637_DELAY, clk 1,
           sleep_us TM1637_DELAY, clk 0, sleep_us TM1637_DELAY]) [0..<8] (emits ds s))"
    unfolding write_byte_def by (subst run_Cons) (rule refl)
  then show ?thesis
    by (simp only: bit_loop_emits ack_emits byte_frame_def append_assoc)
qed

lemma start_emits: "start (emits ds s) = emits (ds @ start_frame) s"
  by (simp add: start_def run_Cons run_Nil pin_ops_emits TM1637_DELAY_def start_frame_def)

lemma stop_emits: "stop (emits ds s) = emits (ds @ stop_frame) s"
  by (simp add: stop_def run_Cons run_Nil pin_ops_emits TM1637_DELAY_def stop_frame_def)

text \<open>
  C4. For every byte \<open>b\<close> (indeed every integer), \<open>write_byte b\<close> appends to the bus trace
  exactly the eight bit cells of \<open>b\<close>, bit 0 first and bit 7 last, each one setting the data
  line to the bit and pulsing the clock high then low with a 10 microsecond delay after
  every transition, followed by exactly one acknowledgment pulse (clock low, wait, high,
  wait, low, wait). Nothing else of the device changes, and no event of the frame reads
  a pin.
\<close>

theorem write_byte_lsb_first_then_ack:
  "write_byte b s =
     s\<lparr>dev_trace := dev_trace s @
        bit_cell (of_bool (bit b 0)) @ bit_cell (of_bool (bit b 1)) @
        bit_cell (of_bool (bit b 2)) @ bit_cell (of_bool (bit b 3)) @
        bit_cell (of_bool (bit b 4)) @ bit_cell (of_bool (bit b 5)) @
        bit_cell (of_bool (bit b 6)) @ bit_cell (of_bool (bit b 7)) @ ack_pulse\<rparr>
   \<and> Pin_get DIO \<notin> set (byte_frame b) \<and> Pin_get CLK \<notin> set (byte_frame b)
   \<and> bit_cell v =
       [Pin_set DIO v, Sleep_us 10, Pin_set CLK 1, Sleep_us 10, Pin_set CLK 0, Sleep_us 10]
   \<and> ack_pulse =
       [Pin_set CLK 0, Sleep_us 10, Pin_set CLK 1, Sleep_us 10, Pin_set CLK 0, Sleep_us 10]"
proof -
  have "write_byte b (emits [] s) = emits ([] @ byte_frame b) s"
    by (rule write_byte_emits)
  then have "write_byte b s = s\<lparr>dev_trace := dev_trace s @ byte_frame b\<rparr>"
    by (simp add: emits_def)
  moreover have "Pin_get p \<notin> set (byte_frame b)" for p
    by (simp add: byte_frame_def bit_cell_def ack_pulse_def)
  ultimately show ?thesis
    by (simp add: byte_frame_def bit_cell_def ack_pulse_def)
qed

lemma write_data_cmd_emits: "write_data_cmd (emits ds s) = emits (ds @ data_cmd_frame) s"
  by (simp add: write_data_cmd_def run_Cons run_Nil start_emits write_byte_emits stop_emits
      data_cmd_frame_def TM1637_CMD1_def)

lemma write_dsp_ctrl_emits:
  "write_dsp_ctrl (emits ds s) = emits (ds @ dsp_ctrl_frame (dev_brightness s)) s"
  by (simp add: write_dsp_ctrl_def run_Cons run_Nil start_emits write_byte_emits stop_emits
      dsp_ctrl_frame_def TM1637_CMD3_def TM1637_DSP_ON_def emits_fields)

lemma write_bytes_emits:
  "fold (\<lambda>seg. write_byte seg) segments (emits ds s) =
     emits (ds @ concat (map byte_frame segments)) s"
  by (induction segments arbitrary: ds) (simp_all add: emits_Nil write_byte_emits)

lemma write_segments_ok:
  assumes "0 \<le> pos" "pos < dev_digits s"
  shows "write_segments s segments pos =
           (Inr (), emits (write_frame (dev_brightness s) segments pos) s)"
proof -
  have "run [write_data_cmd, start, write_byte (TM1637_CMD2 OR pos),
             fold (\<lambda>seg. write_byte seg) segments, stop, write_dsp_ctrl] (emits [] s) =
        emits (write_frame (dev_brightness s) segments pos) s"
    by (simp add: run_Cons run_Nil write_data_cmd_emits start_emits write_byte_emits
        write_bytes_emits stop_emits write_dsp_ctrl_emits write_frame_def TM1637_CMD2_def)
  with assms show ?thesis
    by (simp add: write_segments_def emits_Nil)
qed

subsection \<open>Display writes and brightness\<close>

text \<open>
  C3. \<open>write_segments\<close> with a position below 0 or not below the digit count raises the
  out-of-range error and leaves the device as it was: the bus trace is the one before the
  call, so no start condition, no byte and no command went out.
\<close>

theorem write_out_of_range_no_transmission:
  "pos < 0 \<or> pos \<ge> dev_digits s \<Longrightarrow>
     write_segments s segments pos = (Inl (ValueError (py ''Position out of range'')), s)
     \<and> dev_trace (snd (write_segments s segments pos)) = dev_trace s"
  by (auto simp add: write_segments_def)

theorem write_out_of_range_no_transmission_witness:
  "write_segments \<lparr>dev_brightness = 7, dev_digits = 4, dev_decimal = False, dev_trace = []\<rparr>
       [0x3F, 0x06] 4
     = (Inl (ValueError (py ''Position out of range'')),
        \<lparr>dev_brightness = 7, dev_digits = 4, dev_decimal = False, dev_trace = []\<rparr>)
   \<and> dev_trace (snd (write_segments
        \<lparr>dev_brightness = 7, dev_digits = 4, dev_decimal = False, dev_trace = []\<rparr>
        [0x3F, 0x06] (- 1))) = []"
  using write_out_of_range_no_transmission
          [of 4 "\<lparr>dev_brightness = 7, dev_digits = 4, dev_decimal = False, dev_trace = []\<rparr>"
              "[0x3F, 0x06]"]
        write_out_of_range_no_transmission
          [of "- 1" "\<lparr>dev_brightness = 7, dev_digits = 4, dev_decimal = False, dev_trace = []\<rparr>"
              "[0x3F, 0x06]"]
  by simp

lemma brightness_set_state:
  "run [write_data_cmd, write_dsp_ctrl] (s\<lparr>dev_brightness := v\<rparr>) =
     emits (data_cmd_frame @ dsp_ctrl_frame v) (s\<lparr>dev_brightness := v\<rparr>)"
  using write_data_cmd_emits [of "[]" "s\<lparr>dev_brightness := v\<rparr>"]
        write_dsp_ctrl_emits [of data_cmd_frame "s\<lparr>dev_brightness := v\<rparr>"]
  by (simp add: run_Cons run_Nil emits_Nil)

text \<open>
  C6. Setting the brightness to \<open>b\<close> with \<open>0 \<le> b \<le> 7\<close> succeeds and stores \<open>b\<close> (the getter
  then returns it); with \<open>b < 0\<close> or \<open>b > 7\<close> the call raises the brightness range error and
  the device, stored brightness included, is unchanged.
\<close>

theorem brightness_range_checked:
  "(0 \<le> b \<and> b \<le> 7 \<longrightarrow>
      fst (brightness s (Some b)) = Inr None \<and>
      dev_brightness (snd (brightness s (Some b))) = b \<and>
      fst (brightness (snd (brightness s (Some b))) None) = Inr (Some b)) \<and>
   (b < 0 \<or> b > 7 \<longrightarrow>
      brightness s (Some b) = (Inl (ValueError (py ''Brightness out of range'')), s) \<and>
      dev_brightness (snd (brightness s (Some b))) = dev_brightness s)"
  by (auto simp add: brightness_def brightness_set_state emits_fields)

theorem brightness_range_checked_witness:
  "dev_brightness (snd (brightness
      \<lparr>dev_brightness = 7, dev_digits = 4, dev_decimal = False, dev_trace = []\<rparr> (Some 3))) = 3
   \<and> brightness \<lparr>dev_brightness = 7, dev_digits = 4, dev_decimal = False, dev_trace = []\<rparr> (Some 8)
     = (Inl (ValueError (py ''Brightness out of range'')),
        \<lparr>dev_brightness = 7, dev_digits = 4, dev_decimal = False, dev_trace = []\<rparr>)
   \<and> brightness \<lparr>dev_brightness = 7, dev_digits = 4, dev_decimal = False, dev_trace = []\<rparr>
        (Some (- 1))
     = (Inl (ValueError (py ''Brightness out of range'')),
        \<lparr>dev_brightness = 7, dev_digits = 4, dev_decimal = False, dev_trace = []\<rparr>)"
  using brightness_range_checked
          [of 3 "\<lparr>dev_brightness = 7, dev_digits = 4, dev_decimal = False, dev_trace = []\<rparr>"]
        brightness_range_checked
          [of 8 "\<lparr>dev_brightness = 7, dev_digits = 4, dev_decimal = False, dev_trace = []\<rparr>"]
        brightness_range_checked
          [of "- 1" "\<lparr>dev_brightness = 7, dev_digits = 4, dev_decimal = False, dev_trace = []\<rparr>"]
  by simp

subsection \<open>Character encoding\<close>

lemma length_SEGMENTS: "length SEGMENTS = 39"
  by (simp add: SEGMENTS_def)

lemma segments_get:
  "0 \<le> k \<Longrightarrow> k < 39 \<Longrightarrow> bytearray_get SEGMENTS k = Inr (uint (SEGMENTS ! nat k))"
  by (simp add: bytearray_get_def py_index_def length_SEGMENTS)

lemma ord_eq_iff: "ord c = ord d \<longleftrightarrow> c = d"
  by (simp add: ord_def)

lemma ord_literals:
  "ord (cp CHR '' '') = 32" "ord (cp CHR ''-'') = 45" "ord (cp CHR ''*'') = 42"
  "ord (cp CHR ''.'') = 46" "ord (numeral k) = numeral k"
  by (simp_all add: ord_def)

lemma ord_special:
  "ord c = 32 \<longleftrightarrow> c = cp CHR '' ''" "ord c = 45 \<longleftrightarrow> c = cp CHR ''-''"
  "ord c = 42 \<longleftrightarrow> c = cp CHR ''*''" "ord c = 46 \<longleftrightarrow> c = cp CHR ''.''"
  by (auto simp add: ord_def)

lemma encode_char_digit:
  "48 \<le> ord c \<Longrightarrow> ord c \<le> 57 \<Longrightarrow> encode_char c = Inr (uint (SEGMENTS ! nat (ord c - 48)))"
  by (simp add: encode_char_def Let_def segments_get)

lemma encode_char_upper:
  "65 \<le> ord c \<Longrightarrow> ord c \<le> 90 \<Longrightarrow> encode_char c = Inr (uint (SEGMENTS ! nat (ord c - 55)))"
  by (simp add: encode_char_def Let_def segments_get)

lemma encode_char_lower:
  "97 \<le> ord c \<Longrightarrow> ord c \<le> 122 \<Longrightarrow> encode_char c = Inr (uint (SEGMENTS ! nat (ord c - 87)))"
  by (simp add: encode_char_def Let_def segments_get)

lemma encode_char_special [simplified]:
  "encode_char (cp CHR '' '') = Inr (uint (SEGMENTS ! 36))"
  "encode_char (cp CHR ''-'') = Inr (uint (SEGMENTS ! 37))"
  "encode_char (cp CHR ''*'') = Inr (uint (SEGMENTS ! 38))"
  by (simp_all add: encode_char_def Let_def segments_get ord_literals)

lemma encode_char_other:
  assumes "\<not> (48 \<le> ord c \<and> ord c \<le> 57)" "\<not> (65 \<le> ord c \<and> ord c \<le> 90)"
    "\<not> (97 \<le> ord c \<and> ord c \<le> 122)" "c \<noteq> cp CHR '' ''" "c \<noteq> cp CHR ''-''" "c \<noteq> cp CHR ''*''"
  shows "encode_char c =
    Inl (ValueError (py ''Character out of range: '' @ str_int (ord c) @ py '' '' @ [cp CHR 0x27, c, cp CHR 0x27]))"
proof -
  have "\<not> (ord c \<ge> 65 \<and> ord c \<le> 90)" "\<not> (ord c \<ge> 97 \<and> ord c \<le> 122)"
    "\<not> (ord c \<ge> 48 \<and> ord c \<le> 57)" "ord c \<noteq> 32" "ord c \<noteq> 42" "ord c \<noteq> 45"
    using assms by (simp_all only: ord_special not_False_eq_True)
  then show ?thesis
    unfolding encode_char_def Let_def by (simp only: if_False)
qed

text \<open>
  C5. \<open>encode_char\<close> maps the digits \<open>0\<close> to \<open>9\<close> to the table entries 0 to 9, the letters
  \<open>A\<close> to \<open>Z\<close> and \<open>a\<close> to \<open>z\<close> to the entries 10 to 35, a letter and its other case to the
  same entry, the space to entry 36, the dash to entry 37 and the star to entry 38. For
  every other character, of any code point (the characters above 255 included), it raises
  the out-of-range error, whose message holds the ordinal of the character and the
  character itself.
\<close>

theorem encode_char_domain:
  "(48 \<le> ord c \<and> ord c \<le> 57 \<longrightarrow> encode_char c = Inr (uint (SEGMENTS ! nat (ord c - 48)))) \<and>
   (65 \<le> ord c \<and> ord c \<le> 90 \<longrightarrow> encode_char c = Inr (uint (SEGMENTS ! nat (10 + (ord c - 65))))) \<and>
   (97 \<le> ord c \<and> ord c \<le> 122 \<longrightarrow> encode_char c = Inr (uint (SEGMENTS ! nat (10 + (ord c - 97))))) \<and>
   (65 \<le> ord c \<and> ord c \<le> 90 \<and> ord c' = ord c + 32 \<longrightarrow> encode_char c' = encode_char c) \<and>
   (c = cp CHR '' '' \<longrightarrow> encode_char c = Inr (uint (SEGMENTS ! 36))) \<and>
   (c = cp CHR ''-'' \<longrightarrow> encode_char c = Inr (uint (SEGMENTS ! 37))) \<and>
   (c = cp CHR ''*'' \<longrightarrow> encode_char c = Inr (uint (SEGMENTS ! 38))) \<and>
   (\<not> (48 \<le> ord c \<and> ord c \<le> 57) \<and> \<not> (65 \<le> ord c \<and> ord c \<le> 90) \<and>
    \<not> (97 \<le> ord c \<and> ord c \<le> 122) \<and> c \<noteq> cp CHR '' '' \<and> c \<noteq> cp CHR ''-'' \<and> c \<noteq> cp CHR ''*'' \<longrightarrow>
      encode_char c =
        Inl (ValueError (py ''Character out of range: '' @ str_int (ord c) @ py '' '' @
                         [cp CHR 0x27, c, cp CHR 0x27])))"
proof (intro conjI impI)
  assume "48 \<le> ord c \<and> ord c \<le> 57"
  then show "encode_char c = Inr (uint (SEGMENTS ! nat (ord c - 48)))"
    by (simp add: encode_char_digit)
next
  assume "65 \<le> ord c \<and> ord c \<le> 90"
  then show "encode_char c = Inr (uint (SEGMENTS ! nat (10 + (ord c - 65))))"
    by (simp add: encode_char_upper)
next
  assume "97 \<le> ord c \<and> ord c \<le> 122"
  then show "encode_char c = Inr (uint (SEGMENTS ! nat (10 + (ord c - 97))))"
    by (simp add: encode_char_lower)
next
  assume a: "65 \<le> ord c \<and> ord c \<le> 90 \<and> ord c' = ord c + 32"
  then have "encode_char c' = Inr (uint (SEGMENTS ! nat (ord c' - 87)))"
    by (intro encode_char_lower) simp_all
  moreover from a have "encode_char c = Inr (uint (SEGMENTS ! nat (ord c - 55)))"
    by (intro encode_char_upper) simp_all
  ultimately show "encode_char c' = encode_char c"
    using a by simp
next
  assume "c = cp CHR '' ''"
  then show "encode_char c = Inr (uint (SEGMENTS ! 36))" by (simp add: encode_char_special)
next
  assume "c = cp CHR ''-''"
  then show "encode_char c = Inr (uint (SEGMENTS ! 37))" by (simp add: encode_char_special)
next
  assume "c = cp CHR ''*''"
  then show "encode_char c = Inr (uint (SEGMENTS ! 38))" by (simp add: encode_char_special)
next
  assume "\<not> (48 \<le> ord c \<and> ord c \<le> 57) \<and> \<not> (65 \<le> ord c \<and> ord c \<le> 90) \<and>
    \<not> (97 \<le> ord c \<and> ord c \<le> 122) \<and> c \<noteq> cp CHR '' '' \<and> c \<noteq> cp CHR ''-'' \<and> c \<noteq> cp CHR ''*''"
  then show "encode_char c =
        Inl (ValueError (py ''Character out of range: '' @ str_int (ord c) @ py '' '' @
                         [cp CHR 0x27, c, cp CHR 0x27]))"
    by (intro encode_char_other) simp_all
qed


lemma segments_values:
  "uint (SEGMENTS ! 7) = 7" "uint (SEGMENTS ! 20) = 118" "uint (SEGMENTS ! 36) = 0"
  "uint (SEGMENTS ! 37) = 64" "uint (SEGMENTS ! 38) = 99" "uint (SEGMENTS ! 12) = 57"
  by (simp_all add: SEGMENTS_def)

lemma str_int_46 [simplified]: "str_int 46 = py ''46''"
  by (simp add: str_int_def str_nat.simps [of 46] str_nat.simps [of 4] digit_char_def)


lemma str_int_8364 [simplified]: "str_int 8364 = py ''8364''"
  by (simp add: str_int_def str_nat.simps [of 8364] str_nat.simps [of 836] str_nat.simps [of 83]
      str_nat.simps [of 8] digit_char_def)

theorem encode_char_domain_witness:
  "encode_char (cp CHR ''7'') = Inr 0x07 \<and>
   encode_char (cp CHR ''K'') = Inr 0x76 \<and>
   encode_char (cp CHR ''k'') = Inr 0x76 \<and>
   encode_char (cp CHR '' '') = Inr 0x00 \<and>
   encode_char (cp CHR ''-'') = Inr 0x40 \<and>
   encode_char (cp CHR ''*'') = Inr 0x63 \<and>
   encode_char (cp CHR ''.'') =
     Inl (ValueError (py ''Character out of range: 46 '' @ [cp CHR 0x27, cp CHR ''.'', cp CHR 0x27])) \<and>
   encode_char 0x20AC =
     Inl (ValueError (py ''Character out of range: 8364 '' @ [cp CHR 0x27, 0x20AC, cp CHR 0x27]))"
proof -
  have "encode_char (cp CHR ''7'') = Inr 0x07"
    using encode_char_domain [of "cp CHR ''7''" "cp CHR ''7''"]
    by (simp add: ord_literals segments_values)
  moreover have "encode_char (cp CHR ''K'') = Inr 0x76"
    using encode_char_domain [of "cp CHR ''K''" "cp CHR ''k''"]
    by (simp add: ord_literals segments_values)
  moreover have "encode_char (cp CHR ''k'') = encode_char (cp CHR ''K'')"
    using encode_char_domain [of "cp CHR ''K''" "cp CHR ''k''"]
    by (simp add: ord_literals)
  moreover have "encode_char (cp CHR '' '') = Inr 0x00"
    using encode_char_domain [of "cp CHR '' ''" "cp CHR '' ''"] by (simp add: segments_values)
  moreover have "encode_char (cp CHR ''-'') = Inr 0x40"
    using encode_char_domain [of "cp CHR ''-''" "cp CHR ''-''"] by (simp add: segments_values)
  moreover have "encode_char (cp CHR ''*'') = Inr 0x63"
    using encode_char_domain [of "cp CHR ''*''" "cp CHR ''*''"] by (simp add: segments_values)
  moreover have "encode_char (cp CHR ''.'') =
     Inl (ValueError (py ''Character out of range: 46 '' @ [cp CHR 0x27, cp CHR ''.'', cp CHR 0x27]))"
    using encode_char_domain [of "cp CHR ''.''" "cp CHR ''.''"]
    by (simp add: ord_literals str_int_46)
  moreover have "encode_char 0x20AC =
     Inl (ValueError (py ''Character out of range: 8364 '' @ [cp CHR 0x27, 0x20AC, cp CHR 0x27]))"
    using encode_char_domain [of "0x20AC" "0x20AC"]
    by (simp add: ord_literals str_int_8364)
  ultimately show ?thesis by simp
qed

subsection \<open>String encoding\<close>

lemma bytearray_get_byte: "bytearray_get a i = Inr v \<Longrightarrow> 0 \<le> v \<and> v < 256"
proof -
  have "uint (w :: 8 word) < 256" for w
    using uint_bounded [of w] by simp
  then show "bytearray_get a i = Inr v \<Longrightarrow> 0 \<le> v \<and> v < 256"
    by (auto simp add: bytearray_get_def split: sum.splits)
qed

lemma encode_char_byte: "encode_char c = Inr v \<Longrightarrow> 0 \<le> v \<and> v < 256"
  unfolding encode_char_def Let_def
  by (auto split: if_splits dest: bytearray_get_byte)

lemma bytearray_set_at_length:
  "0 \<le> v \<Longrightarrow> v < 256 \<Longrightarrow>
     bytearray_set (pre @ x # post) (int (length pre)) v = Inr (pre @ word_of_int v # post)"
  by (simp add: bytearray_set_def py_index_def)

lemma encode_loop_glyphs:
  "encode_loop (pre @ replicate (length cs) 0) (int (length pre)) cs =
     (case glyphs cs of Inl e \<Rightarrow> Inl e | Inr r \<Rightarrow> Inr (pre @ r))"
proof (induction cs arbitrary: pre)
  case Nil
  then show ?case by simp
next
  case (Cons c cs)
  show ?case
  proof (cases "encode_char c")
    case (Inl e)
    then show ?thesis by simp
  next
    case (Inr v)
    then have v: "0 \<le> v" "v < 256"
      using encode_char_byte by blast+
    have "encode_loop ((pre @ [word_of_int v]) @ replicate (length cs) 0)
            (int (length (pre @ [word_of_int v]))) cs =
          (case glyphs cs of Inl e \<Rightarrow> Inl e | Inr r \<Rightarrow> Inr ((pre @ [word_of_int v]) @ r))"
      by (rule Cons.IH)
    then show ?thesis
      using Inr v by (simp add: bytearray_set_at_length add.commute split: sum.splits)
  qed
qed

lemma TM1637_encode_string_glyphs: "TM1637_encode_string str = glyphs str"
  using encode_loop_glyphs [of "[]" str]
  by (simp add: TM1637_encode_string_def split: sum.splits)

lemma glyphs_length: "glyphs str = Inr r \<Longrightarrow> length r = length str"
  by (induction str arbitrary: r) (auto split: sum.splits)


lemma byte_or_msb:
  "0 \<le> uint (x :: 8 word) OR 128" "uint x OR 128 < 256" "word_of_int (uint x OR 128) = x OR 128"
proof -
  have e: "uint x OR 128 = uint (x OR 128)"
    by (simp add: uint_or)
  have "uint (x OR 128) < 256"
    using uint_bounded [of "x OR 128"] by simp
  with e show "0 \<le> uint x OR 128" "uint x OR 128 < 256" "word_of_int (uint x OR 128) = x OR 128"
    by simp_all
qed

lemma bytearray_ior_snoc:
  "bytearray_ior (xs @ x # post) (int (length xs)) TM1637_MSB = Inr (xs @ (x OR 0x80) # post)"
  by (simp add: bytearray_ior_def bytearray_get_def bytearray_set_def py_index_def
      TM1637_MSB_def byte_or_msb)

lemma bytearray_ior_last:
  assumes "acc \<noteq> []"
  shows "bytearray_ior (acc @ post) (int (length acc) - 1) TM1637_MSB =
           Inr ((butlast acc @ [last acc OR 0x80]) @ post)"
proof -
  obtain xs x where acc: "acc = xs @ [x]"
    using assms by (metis append_butlast_last_id)
  show ?thesis
    using bytearray_ior_snoc [of xs x post] by (simp add: acc)
qed

lemma decimal_loop_dot_glyphs:
  "decimal_loop (acc @ replicate (length (filter (\<lambda>c. c \<noteq> cp CHR ''.'') cs)) 0)
     (int (length acc)) cs = dot_glyphs acc cs"
proof (induction cs arbitrary: acc)
  case Nil
  then show ?case by simp
next
  case (Cons c cs)
  show ?case
  proof (cases "c = cp CHR ''.'' \<and> acc \<noteq> []")
    case True
    then have "decimal_loop ((butlast acc @ [last acc OR 0x80]) @
                 replicate (length (filter (\<lambda>c. c \<noteq> cp CHR ''.'') cs)) 0)
               (int (length (butlast acc @ [last acc OR 0x80]))) cs =
             dot_glyphs (butlast acc @ [last acc OR 0x80]) cs"
      by (intro Cons.IH)
    with True show ?thesis
      by (simp add: bytearray_ior_last)
  next
    case False
    show ?thesis
    proof (cases "encode_char c")
      case (Inl e)
      with False show ?thesis by auto
    next
      case (Inr v)
      then have v: "0 \<le> v" "v < 256"
        using encode_char_byte by blast+
      have nd: "c \<noteq> cp CHR ''.''"
        using Inr by (auto simp add: encode_char_def Let_def ord_literals)
      have "decimal_loop ((acc @ [word_of_int v]) @
                 replicate (length (filter (\<lambda>c. c \<noteq> cp CHR ''.'') cs)) 0)
               (int (length (acc @ [word_of_int v]))) cs =
             dot_glyphs (acc @ [word_of_int v]) cs"
        by (rule Cons.IH)
      with False Inr v nd show ?thesis
        by (simp add: bytearray_set_at_length add.commute)
    qed
  qed
qed

lemma TM1637Decimal_encode_string_dot_glyphs:
  "TM1637Decimal_encode_string str = dot_glyphs [] str"
  using decimal_loop_dot_glyphs [of "[]" str]
  by (simp add: TM1637Decimal_encode_string_def)


lemma encode_char_dot [simplified]:
  "encode_char (cp CHR ''.'') =
     Inl (ValueError (py ''Character out of range: 46 '' @ [cp CHR 0x27, cp CHR ''.'', cp CHR 0x27]))"
  using encode_char_other [of "cp CHR ''.''"] by (simp add: ord_literals str_int_46)

lemma dot_glyphs_length:
  "dot_glyphs acc cs = Inr r \<Longrightarrow>
     length r = length acc + length (filter (\<lambda>c. c \<noteq> cp CHR ''.'') cs)"
proof (induction cs arbitrary: acc)
  case Nil
  then show ?case by simp
next
  case (Cons c cs)
  show ?case
  proof (cases "c = cp CHR ''.''")
    case True
    show ?thesis
    proof (cases "acc = []")
      case True
      with \<open>c = cp CHR ''.''\<close> Cons.prems show ?thesis
        by (simp add: encode_char_dot)
    next
      case False
      with \<open>c = cp CHR ''.''\<close> Cons.prems
      have "dot_glyphs (butlast acc @ [last acc OR 0x80]) cs = Inr r"
        by simp
      from Cons.IH [OF this] False \<open>c = cp CHR ''.''\<close> show ?thesis
        by simp
    qed
  next
    case False
    with Cons.prems obtain v where "dot_glyphs (acc @ [word_of_int v]) cs = Inr r"
      by (auto split: sum.splits)
    from Cons.IH [OF this] False show ?thesis
      by simp
  qed
qed

lemma dot_glyphs_append:
  "dot_glyphs acc (xs @ ys) =
     (case dot_glyphs acc xs of Inl e \<Rightarrow> Inl e | Inr r \<Rightarrow> dot_glyphs r ys)"
  by (induction xs arbitrary: acc) (simp_all split: sum.splits)

lemma length_without_dots [simplified]:
  "length (filter (\<lambda>c. c \<noteq> cp CHR ''.'') str) =
     length str - length (filter (\<lambda>c. c = cp CHR ''.'') str)"
  using sum_length_filter_compl [of "\<lambda>c. c = cp CHR ''.''" str] by simp

text \<open>
  C7. When the plain encoder succeeds, its output is as long as the input. When the
  decimal-point encoder succeeds, its output is as long as the input without its dots;
  a dot appended to a non-empty input sets bit 7 (\<open>0x80\<close>) of the last output byte and
  adds no byte, and any other encodable character appends its own byte.
\<close>

theorem encode_string_lengths_and_dots:
  "(TM1637_encode_string str = Inr r \<longrightarrow> length r = length str) \<and>
   (TM1637Decimal_encode_string str = Inr r \<longrightarrow>
      length r = length str - length (filter (\<lambda>c. c = cp CHR ''.'') str)) \<and>
   (TM1637Decimal_encode_string str = Inr r \<and> str \<noteq> [] \<longrightarrow>
      r \<noteq> [] \<and>
      TM1637Decimal_encode_string (str @ py ''.'') = Inr (butlast r @ [last r OR 0x80])) \<and>
   (TM1637Decimal_encode_string str = Inr r \<and> c \<noteq> cp CHR ''.'' \<and> encode_char c = Inr v \<longrightarrow>
      TM1637Decimal_encode_string (str @ [c]) = Inr (r @ [word_of_int v]))"
proof (intro conjI impI)
  assume "TM1637_encode_string str = Inr r"
  then show "length r = length str"
    by (simp add: TM1637_encode_string_glyphs glyphs_length)
next
  assume "TM1637Decimal_encode_string str = Inr r"
  then have "dot_glyphs [] str = Inr r"
    by (simp add: TM1637Decimal_encode_string_dot_glyphs)
  from dot_glyphs_length [OF this]
  show "length r = length str - length (filter (\<lambda>c. c = cp CHR ''.'') str)"
    by (simp add: length_without_dots)
next
  assume a: "TM1637Decimal_encode_string str = Inr r \<and> str \<noteq> []"
  then have d: "dot_glyphs [] str = Inr r"
    by (simp add: TM1637Decimal_encode_string_dot_glyphs)
  from a obtain x xs where str: "str = x # xs"
    by (cases str) auto
  have "x \<noteq> cp CHR ''.''"
    using d by (auto simp add: str encode_char_dot)
  with dot_glyphs_length [OF d] show "r \<noteq> []"
    by (auto simp add: str)
  then show "TM1637Decimal_encode_string (str @ py ''.'') = Inr (butlast r @ [last r OR 0x80])"
    by (simp add: TM1637Decimal_encode_string_dot_glyphs dot_glyphs_append d)
next
  assume a: "TM1637Decimal_encode_string str = Inr r \<and> c \<noteq> cp CHR ''.'' \<and> encode_char c = Inr v"
  then have "dot_glyphs [] str = Inr r"
    by (simp add: TM1637Decimal_encode_string_dot_glyphs)
  with a show "TM1637Decimal_encode_string (str @ [c]) = Inr (r @ [word_of_int v])"
    by (simp add: TM1637Decimal_encode_string_dot_glyphs dot_glyphs_append)
qed

text \<open>
  C2, as the code has it. The claim says a leading dot is ignored. In the decimal-point
  encoder a dot seen while no byte has been emitted fails the guard \<open>j > 0\<close> and is handed
  to \<open>encode_char\<close>, which rejects it: for every input that begins with a dot the call
  raises the out-of-range error for the character \<open>.\<close> with ordinal 46.
\<close>

theorem leading_dot_raises:
  "TM1637Decimal_encode_string (cp CHR ''.'' # str) =
     Inl (ValueError (py ''Character out of range: 46 '' @ [cp CHR 0x27, cp CHR ''.'', cp CHR 0x27]))"
  by (simp add: TM1637Decimal_encode_string_dot_glyphs encode_char_dot)

lemma encode_char_1_5 [simplified]: "encode_char (cp CHR ''1'') = Inr 6" "encode_char (cp CHR ''5'') = Inr 109"
  by (simp_all add: encode_char_digit ord_def SEGMENTS_def)

text \<open>
  C2, the claim refuted: on the input \<open>.5\<close> the call raises, while on \<open>5\<close>, the same input
  without the leading dot, it returns one byte.
\<close>

theorem leading_dot_not_ignored:
  "TM1637Decimal_encode_string (py ''.5'') =
     Inl (ValueError (py ''Character out of range: 46 '' @ [cp CHR 0x27, cp CHR ''.'', cp CHR 0x27])) \<and>
   TM1637Decimal_encode_string (py ''5'') = Inr [0x6D]"
  by (simp add: TM1637Decimal_encode_string_dot_glyphs encode_char_dot encode_char_1_5)


theorem encode_string_lengths_and_dots_witness:
  "TM1637_encode_string (py ''15'') = Inr [0x06, 0x6D] \<and>
   length [0x06, 0x6D :: 8 word] = length (py ''15'') \<and>
   TM1637Decimal_encode_string (py ''1.5'') = Inr [0x86, 0x6D] \<and>
   length [0x86, 0x6D :: 8 word] = length (py ''1.5'') - length (filter (\<lambda>c. c = cp CHR ''.'') (py ''1.5''))"
proof -
  have p: "TM1637_encode_string (py ''15'') = Inr [0x06, 0x6D]"
    by (simp add: TM1637_encode_string_glyphs encode_char_1_5)
  have d1: "TM1637Decimal_encode_string (py ''1'') = Inr [0x06]"
    by (simp add: TM1637Decimal_encode_string_dot_glyphs encode_char_1_5)
  have d2: "TM1637Decimal_encode_string (py ''1.'') = Inr [0x86]"
    using encode_string_lengths_and_dots [of "py ''1''" "[0x06]"] d1 by simp
  have d3: "TM1637Decimal_encode_string (py ''1.5'') = Inr [0x86, 0x6D]"
    using encode_string_lengths_and_dots [of "py ''1.''" "[0x86]" "cp CHR ''5''" 109] d2
    by (simp add: encode_char_1_5)
  show ?thesis
    using encode_string_lengths_and_dots [of "py ''15''" "[0x06, 0x6D]"]
          encode_string_lengths_and_dots [of "py ''1.5''" "[0x86, 0x6D]"] p d3
    by simp
qed

subsection \<open>Formatted numbers are encodable\<close>

lemma number_char_encodable [simplified]:
  assumes "number_char c"
  shows "encode_char c = Inr (uint (glyph c))" and "c \<noteq> cp CHR ''.''"
proof -
  have "\<exists>w. encode_char c = Inr (uint (w :: 8 word))"
    using assms encode_char_digit [of c] encode_char_lower [of c] encode_char_special
    by (auto simp add: number_char_def ord_special)
  then show "encode_char c = Inr (uint (glyph c))"
    by (auto simp add: glyph_def)
  show "c \<noteq> cp CHR ''.''"
    using assms by (auto simp add: number_char_def ord_literals)
qed

lemma glyphs_number_chars:
  "list_all number_char str \<Longrightarrow> glyphs str = Inr (map glyph str)"
  by (induction str) (simp_all add: number_char_encodable)

lemma dot_glyphs_number_chars:
  "list_all number_char str \<Longrightarrow> dot_glyphs acc str = Inr (acc @ map glyph str)"
  by (induction str arbitrary: acc) (simp_all add: number_char_encodable)

lemma encode_string_number_chars:
  "list_all number_char str \<Longrightarrow> encode_string s str = Inr (map glyph str)"
  by (simp add: encode_string_def TM1637_encode_string_glyphs
      TM1637Decimal_encode_string_dot_glyphs glyphs_number_chars dot_glyphs_number_chars)

lemma ord_digit_char_dec: "d < 10 \<Longrightarrow> ord (digit_char d) = 48 + int d"
proof -
  assume "d < 10"
  then have "d = 0 \<or> d = 1 \<or> d = 2 \<or> d = 3 \<or> d = 4 \<or> d = 5 \<or> d = 6 \<or> d = 7 \<or> d = 8 \<or> d = 9"
    by arith
  then show ?thesis
    by (elim disjE) (simp_all add: digit_char_def ord_def)
qed

lemma ord_digit_char_hex: "10 \<le> d \<Longrightarrow> d < 16 \<Longrightarrow> ord (digit_char d) = 87 + int d"
proof -
  assume "10 \<le> d" "d < 16"
  then have "d = 10 \<or> d = 11 \<or> d = 12 \<or> d = 13 \<or> d = 14 \<or> d = 15"
    by linarith
  then show ?thesis
    by (elim disjE) (simp_all add: digit_char_def ord_def)
qed

lemma number_char_digit_char: "d < 16 \<Longrightarrow> number_char (digit_char d)"
  using ord_digit_char_dec [of d] ord_digit_char_hex [of d]
  by (cases "d < 10") (simp_all add: number_char_def)

lemma number_char_literals [simplified]: "number_char (cp CHR ''-'')" "number_char (cp CHR '' '')" "number_char (cp CHR ''0'')"
  by (simp_all add: number_char_def ord_def)

lemma str_nat_number_chars: "list_all number_char (str_nat n)"
proof (induction n rule: str_nat.induct)
  case (1 n)
  show ?case
  proof (cases "n < 10")
    case True
    then show ?thesis
      by (subst str_nat.simps) (simp add: number_char_digit_char)
  next
    case False
    with 1 show ?thesis
      by (subst str_nat.simps) (simp add: number_char_digit_char)
  qed
qed

lemma hex_nat_number_chars: "list_all number_char (hex_nat n)"
proof (induction n rule: hex_nat.induct)
  case (1 n)
  show ?case
  proof (cases "n < 16")
    case True
    then show ?thesis
      by (subst hex_nat.simps) (simp add: number_char_digit_char)
  next
    case False
    with 1 show ?thesis
      by (subst hex_nat.simps) (simp add: number_char_digit_char)
  qed
qed

lemma str_int_number_chars: "list_all number_char (str_int i)"
  by (simp add: str_int_def str_nat_number_chars number_char_literals)

lemma format_d_number_chars: "number_char fill \<Longrightarrow> list_all number_char (format_d fill w i)"
  using str_int_number_chars [of i]
  by (auto simp add: format_d_def rjust_def list_all_iff)

lemma format_0x_number_chars: "list_all number_char (format_0x w v)"
  using hex_nat_number_chars [of "nat v"] hex_nat_number_chars [of "nat (- v)"]
  by (auto simp add: format_0x_def rjust_def number_char_literals list_all_iff)


subsection \<open>Widths of formatted numbers\<close>

lemma length_rjust: "length (rjust fill w str) = max w (length str)"
  by (simp add: rjust_def)

lemma length_str_nat_le: "n < 10 ^ k \<Longrightarrow> 0 < k \<Longrightarrow> length (str_nat n) \<le> k"
proof (induction n arbitrary: k rule: str_nat.induct)
  case (1 n)
  show ?case
  proof (cases "n < 10")
    case True
    with \<open>0 < k\<close> show ?thesis
      by (subst str_nat.simps) simp
  next
    case False
    then obtain k' where k: "k = Suc k'"
      using \<open>0 < k\<close> by (cases k) auto
    have "0 < k'"
      using False \<open>n < 10 ^ k\<close> k by (cases k') auto
    moreover have "n div 10 < 10 ^ k'"
      using \<open>n < 10 ^ k\<close> k by (simp add: less_mult_imp_div_less mult.commute)
    ultimately have "length (str_nat (n div 10)) \<le> k'"
      using "1.IH" False by blast
    with False k show ?thesis
      by (subst str_nat.simps) simp
  qed
qed

lemma length_str_nat_pos: "0 < length (str_nat n)"
  by (subst str_nat.simps) simp

lemma length_format_d_2:
  assumes "- 9 \<le> i" "i \<le> 99"
  shows "length (format_d fill 2 i) = 2"
proof (cases "i < 0")
  case True
  then have "nat (- i) < 10 ^ 1"
    using assms by simp
  then have "length (str_nat (nat (- i))) \<le> 1"
    by (rule length_str_nat_le) simp
  with True length_str_nat_pos [of "nat (- i)"] show ?thesis
    by (simp add: format_d_def length_rjust str_int_def)
next
  case False
  then have "nat i < 10 ^ 2"
    using assms by simp
  then have "length (str_nat (nat i)) \<le> 2"
    by (rule length_str_nat_le) simp
  with False show ?thesis
    by (simp add: format_d_def length_rjust str_int_def)
qed

lemma bytearray_ior_at:
  "bytearray_ior (xs @ x # post) (int (length xs)) 128 = Inr (xs @ (x OR 0x80) # post)"
  using bytearray_ior_snoc [of xs x post] by (simp add: TM1637_MSB_def)

lemma bytearray_ior_second:
  assumes "1 < length a"
  shows "\<exists>a'. bytearray_ior a 1 128 = Inr a' \<and> length a' = length a"
proof -
  from assms obtain x y post where "a = [x] @ y # post"
    by (cases a; cases "tl a") auto
  then show ?thesis
    using bytearray_ior_at [of "[x]" y post] by simp
qed

subsection \<open>Display writes accept any number of segments\<close>

lemma write_segments_trace:
  assumes "0 \<le> pos" "pos < dev_digits s"
  shows "write_segments s segments pos =
     (Inr (), s\<lparr>dev_trace := dev_trace s @ data_cmd_frame @ start_frame @
        byte_frame (0xC0 OR pos) @ concat (map byte_frame segments) @ stop_frame @
        dsp_ctrl_frame (dev_brightness s)\<rparr>)"
  using write_segments_ok [OF assms, of segments]
  by (simp add: emits_def write_frame_def)

lemma hour_minute_writes_four:
  assumes "1 \<le> dev_digits s"
  shows "\<exists>segments. length segments = 4 \<and>
           hour_minute s hour minute colon = write_segments s segments 0"
proof -
  define str where "str = format_d (cp CHR ''0'') 2 (max (- 9) (min hour 99)) @
                          format_d (cp CHR ''0'') 2 (max (- 9) (min minute 99))"
  have len: "length str = 4"
    by (simp add: str_def length_format_d_2)
  have "list_all number_char str"
    by (simp add: str_def format_d_number_chars number_char_literals)
  then have enc: "encode_string s str = Inr (map glyph str)"
    by (rule encode_string_number_chars)
  show ?thesis
  proof (cases colon)
    case False
    then have "hour_minute s hour minute colon = write_segments s (map uint (map glyph str)) 0"
      using enc by (simp add: hour_minute_def str_def)
    with len show ?thesis
      by (intro exI [of _ "map uint (map glyph str)"]) simp
  next
    case True
    obtain a' where a': "bytearray_ior (map glyph str) 1 128 = Inr a'" "length a' = 4"
      using bytearray_ior_second [of "map glyph str"] len by auto
    with True have "hour_minute s hour minute colon = write_segments s (map uint a') 0"
      using enc by (simp add: hour_minute_def str_def)
    with a' show ?thesis
      by (intro exI [of _ "map uint a'"]) simp
  qed
qed

text \<open>
  C10. \<open>write_segments\<close> checks the position only. For a valid position and a segment
  sequence of any length, longer than the digit count included, the call succeeds and
  puts every byte of the sequence on the bus, in order, between the address command and
  the stop condition. In particular \<open>hour_minute\<close> is a successful write of exactly four
  segment bytes at position 0 on every device with at least one digit, also with fewer
  than four.
\<close>

theorem write_sends_every_byte:
  "(0 \<le> pos \<and> pos < dev_digits s \<longrightarrow>
      write_segments s segments pos =
        (Inr (), s\<lparr>dev_trace := dev_trace s @ data_cmd_frame @ start_frame @
           byte_frame (0xC0 OR pos) @ concat (map byte_frame segments) @ stop_frame @
           dsp_ctrl_frame (dev_brightness s)\<rparr>)) \<and>
   (1 \<le> dev_digits s \<longrightarrow>
      (\<exists>four. length four = 4 \<and>
         hour_minute s hour minute colon = write_segments s four 0 \<and>
         fst (write_segments s four 0) = Inr () \<and>
         dev_trace (snd (write_segments s four 0)) =
           dev_trace s @ data_cmd_frame @ start_frame @ byte_frame (0xC0 OR 0) @
           concat (map byte_frame four) @ stop_frame @ dsp_ctrl_frame (dev_brightness s)))"
proof (intro conjI impI)
  assume "0 \<le> pos \<and> pos < dev_digits s"
  then show "write_segments s segments pos =
        (Inr (), s\<lparr>dev_trace := dev_trace s @ data_cmd_frame @ start_frame @
           byte_frame (0xC0 OR pos) @ concat (map byte_frame segments) @ stop_frame @
           dsp_ctrl_frame (dev_brightness s)\<rparr>)"
    by (simp add: write_segments_trace)
next
  assume d: "1 \<le> dev_digits s"
  then obtain four where f: "length four = 4"
      "hour_minute s hour minute colon = write_segments s four 0"
    using hour_minute_writes_four by blast
  have "write_segments s four 0 =
        (Inr (), s\<lparr>dev_trace := dev_trace s @ data_cmd_frame @ start_frame @
           byte_frame (0xC0 OR 0) @ concat (map byte_frame four) @ stop_frame @
           dsp_ctrl_frame (dev_brightness s)\<rparr>)"
    using d by (intro write_segments_trace) simp_all
  with f show "\<exists>four. length four = 4 \<and>
         hour_minute s hour minute colon = write_segments s four 0 \<and>
         fst (write_segments s four 0) = Inr () \<and>
         dev_trace (snd (write_segments s four 0)) =
           dev_trace s @ data_cmd_frame @ start_frame @ byte_frame (0xC0 OR 0) @
           concat (map byte_frame four) @ stop_frame @ dsp_ctrl_frame (dev_brightness s)"
    by (intro exI [of _ four]) simp
qed


theorem write_sends_every_byte_witness:
  "write_segments (\<lparr>dev_brightness = 7, dev_digits = 2, dev_decimal = False, dev_trace = []\<rparr>) [1, 2, 3] 1 =
     (Inr (), (\<lparr>dev_brightness = 7, dev_digits = 2, dev_decimal = False, dev_trace = []\<rparr>)\<lparr>dev_trace := dev_trace (\<lparr>dev_brightness = 7, dev_digits = 2, dev_decimal = False, dev_trace = []\<rparr>) @ data_cmd_frame @ start_frame @
        byte_frame (0xC0 OR 1) @ concat (map byte_frame [1, 2, 3]) @ stop_frame @
        dsp_ctrl_frame (dev_brightness (\<lparr>dev_brightness = 7, dev_digits = 2, dev_decimal = False, dev_trace = []\<rparr>))\<rparr>) \<and>
   (\<exists>four. length four = 4 \<and>
      hour_minute (\<lparr>dev_brightness = 7, dev_digits = 2, dev_decimal = False, dev_trace = []\<rparr>) 12 34 True = write_segments (\<lparr>dev_brightness = 7, dev_digits = 2, dev_decimal = False, dev_trace = []\<rparr>) four 0 \<and>
      fst (write_segments (\<lparr>dev_brightness = 7, dev_digits = 2, dev_decimal = False, dev_trace = []\<rparr>) four 0) = Inr ())"
proof -
  have "0 \<le> (1::int) \<and> 1 < dev_digits (\<lparr>dev_brightness = 7, dev_digits = 2, dev_decimal = False, dev_trace = []\<rparr>)" and "1 \<le> dev_digits (\<lparr>dev_brightness = 7, dev_digits = 2, dev_decimal = False, dev_trace = []\<rparr>)"
    by simp_all
  with write_sends_every_byte [of 1 "(\<lparr>dev_brightness = 7, dev_digits = 2, dev_decimal = False, dev_trace = []\<rparr>)" "[1, 2, 3]" 12 34 True]
  show ?thesis
    by blast
qed

subsection \<open>Hexadecimal display\<close>

lemma hex_mask: "(val :: int) AND (2 ^ n - 1) = val mod 2 ^ n"
proof -
  have "val AND (2 ^ n - 1) = val AND mask n"
    by (simp add: mask_eq_exp_minus_1)
  also have "\<dots> = take_bit n val"
    by (simp add: take_bit_eq_mask)
  also have "\<dots> = val mod 2 ^ n"
    by (simp add: take_bit_eq_mod)
  finally show ?thesis .
qed

text \<open>
  What \<open>hex\<close> does on a device with \<open>d\<close> digits: the mask keeps \<open>8 * d\<close> bits, that is up
  to \<open>2 * d\<close> hexadecimal digits, and every digit of the masked value is written.
\<close>

lemma hex_writes_masked_value:
  assumes "0 \<le> dev_digits s"
  shows "hex s val =
           write_segments s
             (map uint (map glyph
                (format_0x (nat (dev_digits s)) (val mod 2 ^ nat (8 * dev_digits s))))) 0"
proof -
  have "push_bit (nat (8 * dev_digits s)) 1 - 1 = (2 ^ nat (8 * dev_digits s) - 1 :: int)"
    by (simp add: push_bit_of_1)
  then have "val AND (push_bit (nat (8 * dev_digits s)) 1 - 1) = val mod 2 ^ nat (8 * dev_digits s)"
    by (simp only: hex_mask)
  with assms show ?thesis
    unfolding hex_def Let_def
    by (simp add: encode_string_number_chars format_0x_number_chars del: push_bit_of_1)
qed

lemma hex_nat_12345 [simplified]: "hex_nat 74565 = py ''12345''"
  by (simp add: hex_nat.simps [of 74565] hex_nat.simps [of 4660] hex_nat.simps [of 291]
      hex_nat.simps [of 18] hex_nat.simps [of 1] hex_nat.simps [of "Suc 0"] digit_char_def)

lemma glyph_digit: "48 \<le> ord c \<Longrightarrow> ord c \<le> 57 \<Longrightarrow> glyph c = SEGMENTS ! nat (ord c - 48)"
  by (simp add: glyph_def encode_char_digit)

lemma glyphs_12345 [simplified]:
  "uint (glyph (cp CHR ''1'')) = 0x06" "uint (glyph (cp CHR ''2'')) = 0x5B" "uint (glyph (cp CHR ''3'')) = 0x4F"
  "uint (glyph (cp CHR ''4'')) = 0x66" "uint (glyph (cp CHR ''5'')) = 0x6D"
  by (simp_all add: glyph_digit ord_def SEGMENTS_def)

text \<open>
  C1, the code at the failing input. On a device with 4 digits the value \<open>0x12345\<close> is
  below \<open>2 ^ 32\<close>, so the mask leaves it as it is; its text has five hexadecimal digits
  and all five segment bytes, those of \<open>12345\<close>, go to the bus from position 0. Masking to
  \<open>4 * 4\<close> bits, as the claim says, would leave \<open>0x2345\<close>.
\<close>

theorem hex_mask_keeps_eight_bits_per_digit:
  "hex \<lparr>dev_brightness = 7, dev_digits = 4, dev_decimal = False, dev_trace = []\<rparr> 0x12345 =
     (Inr (), \<lparr>dev_brightness = 7, dev_digits = 4, dev_decimal = False,
               dev_trace = data_cmd_frame @ start_frame @ byte_frame 0xC0 @
                 concat (map byte_frame [0x06, 0x5B, 0x4F, 0x66, 0x6D]) @ stop_frame @
                 dsp_ctrl_frame 7\<rparr>)"
proof -
  let ?s = "\<lparr>dev_brightness = 7, dev_digits = 4, dev_decimal = False, dev_trace = []\<rparr>"
  have "format_0x (nat (dev_digits ?s)) (0x12345 mod 2 ^ nat (8 * dev_digits ?s)) = py ''12345''"
    by (simp add: format_0x_def rjust_def hex_nat_12345)
  then have "hex ?s 0x12345 = write_segments ?s [0x06, 0x5B, 0x4F, 0x66, 0x6D] 0"
    using hex_writes_masked_value [of ?s "0x12345"] by (simp add: glyphs_12345)
  then show ?thesis
    by (simp add: write_segments_trace)
qed

subsection \<open>Scrolling\<close>

lemma py_slice_window: "py_slice xs (0 + int i) (int d + int i) = take d (drop i xs)"
proof (cases "i \<le> length xs")
  case True
  then have "min (length xs) (d + i) - i = min (length xs - i) d"
    by auto
  with True show ?thesis
    by (simp add: py_slice_def slice_bound_def Let_def min_def nat_add_distrib)
next
  case False
  then show ?thesis
    by (simp add: py_slice_def slice_bound_def Let_def)
qed

lemma scroll_loop_trace:
  assumes "1 \<le> dev_digits s"
  shows "scroll_loop s xs delay (map int offsets) =
           (Inr (), emits (concat (map (\<lambda>i. write_frame (dev_brightness s)
                              (take (nat (dev_digits s)) (drop i xs)) 0 @ [Sleep_ms delay])
                            offsets)) s)"
  using assms
proof (induction offsets arbitrary: s)
  case Nil
  then show ?case by (simp add: emits_Nil)
next
  case (Cons i offsets)
  let ?w = "take (nat (dev_digits s)) (drop i xs)"
  let ?s' = "emits (write_frame (dev_brightness s) ?w 0 @ [Sleep_ms delay]) s"
  have sl: "py_slice xs (0 + int i) (dev_digits s + int i) = ?w"
    using py_slice_window [of xs i "nat (dev_digits s)"] Cons.prems by simp
  have w: "write_segments s ?w 0 = (Inr (), emits (write_frame (dev_brightness s) ?w 0) s)"
    using Cons.prems by (intro write_segments_ok) simp_all
  have "scroll_loop s xs delay (map int (i # offsets)) = scroll_loop ?s' xs delay (map int offsets)"
    by (simp add: sl w pin_ops_emits del: add_0)
  also have "\<dots> = (Inr (), emits (concat (map (\<lambda>i. write_frame (dev_brightness ?s')
                              (take (nat (dev_digits ?s')) (drop i xs)) 0 @ [Sleep_ms delay])
                            offsets)) ?s')"
    using Cons.prems by (intro Cons.IH) (simp add: emits_fields)
  finally show ?case
    by (simp add: emits_fields emits_emits)
qed

text \<open>
  Given a list of segments, \<open>scroll\<close> does what the specification describes: one write at
  position 0 for each window, each followed by the delay.
\<close>

lemma scroll_list_windows:
  assumes "1 \<le> dev_digits s"
  shows "scroll s (Arg_list segments) delay =
           (Inr (), emits (concat (map (\<lambda>w. write_frame (dev_brightness s) w 0 @ [Sleep_ms delay])
                            (scroll_windows (nat (dev_digits s)) segments))) s)"
proof -
  have "nat (int (length segments) + dev_digits s + 1) = length segments + nat (dev_digits s) + 1"
    using assms by simp
  then show ?thesis
    using assms scroll_loop_trace [OF assms, of _ delay "[0..<length segments + nat (dev_digits s) + 1]"]
    by (simp add: scroll_def py_list_add_def py_len_def scroll_windows_def Let_def comp_def)
qed

lemma scroll_windows_shape:
  "length (scroll_windows d segments) = length segments + d + 1"
  "list_all (\<lambda>w. length w = d) (scroll_windows d segments)"
  "hd (scroll_windows d segments) = replicate d 0"
  "last (scroll_windows d segments) = replicate d 0"
proof -
  show "length (scroll_windows d segments) = length segments + d + 1"
    by (simp add: scroll_windows_def)
  show "list_all (\<lambda>w. length w = d) (scroll_windows d segments)"
    by (auto simp add: scroll_windows_def list_all_iff)
  show "hd (scroll_windows d segments) = replicate d 0"
    by (simp add: scroll_windows_def upt_rec [of 0] del: upt_Suc)
  have "last (scroll_windows d segments) =
          take d (drop (length segments + d) (replicate d 0 @ segments @ replicate d 0))"
    by (simp add: scroll_windows_def last_map)
  then show "last (scroll_windows d segments) = replicate d 0"
    by simp
qed


text \<open>
  Whatever string is given, \<open>scroll\<close> leaves the device untouched and raises: either the
  encoder rejects a character, or the encoded bytearray reaches the list concatenation,
  which raises \<^verbatim>\<open>TypeError\<close>.
\<close>

lemma scroll_string_raises:
  "scroll s (Arg_str str) delay =
     (case encode_string s str of
        Inl e \<Rightarrow> (Inl e, s)
      | Inr a \<Rightarrow>
          (Inl (TypeError (py ''can only concatenate list (not '' @ [cp CHR 0x22] @
                           py ''bytearray'' @ [cp CHR 0x22] @ py '') to list'')), s))"
  by (simp add: scroll_def py_list_add_def split: sum.splits)

lemma encode_string_AB [simplified]: "encode_string s (py ''AB'') = Inr [0x77, 0x7C]"
proof -
  have "encode_char (cp CHR ''A'') = Inr 0x77" "encode_char (cp CHR ''B'') = Inr 0x7C"
    using encode_char_upper [of "cp CHR ''A''"] encode_char_upper [of "cp CHR ''B''"]
    by (simp_all add: ord_literals SEGMENTS_def)
  then show ?thesis
    by (simp add: encode_string_def TM1637_encode_string_glyphs
        TM1637Decimal_encode_string_dot_glyphs)
qed

text \<open>
  C8, the code at the failing input. On a device with 4 digits, \<open>scroll\<close> of the string
  \<open>AB\<close> encodes it to a bytearray of two bytes and then raises \<^verbatim>\<open>TypeError\<close> at
  \<^verbatim>\<open>[0]*self._digits + segments\<close>, a list plus a bytearray: no window is written and
  the bus trace stays empty, where the claim says 2 + 4 + 1 = 7 window writes.
\<close>

theorem scroll_string_type_error:
  "scroll \<lparr>dev_brightness = 7, dev_digits = 4, dev_decimal = False, dev_trace = []\<rparr>
      (Arg_str (py ''AB'')) 250 =
     (Inl (TypeError (py ''can only concatenate list (not '' @ [cp CHR 0x22] @
                      py ''bytearray'' @ [cp CHR 0x22] @ py '') to list'')),
      \<lparr>dev_brightness = 7, dev_digits = 4, dev_decimal = False, dev_trace = []\<rparr>)"
  by (simp add: scroll_string_raises encode_string_AB)

subsection \<open>Temperature display\<close>



















end
